theory Spec2Isabelle
  imports Complex_Main "HOL-Library.Char_ord" "HOL-Library.List_Lexorder" "HOL-Library.Multiset"
begin

section \<open>Strings\<close>

text \<open>
  Python strings are modelled as \<open>string\<close> (lists of \<open>char\<close>), read as ASCII text:
  \<open>lower\<close> and \<open>upper\<close> change the letters A-Z / a-z only and keep the length.
  Python floats are modelled as exact reals: the rounding of binary64 arithmetic is
  not part of the model.
\<close>

definition lower_char :: "char \<Rightarrow> char" where
  "lower_char c =
     (if 65 \<le> (of_char c :: nat) \<and> (of_char c :: nat) \<le> 90
      then char_of ((of_char c :: nat) + 32) else c)"

definition upper_char :: "char \<Rightarrow> char" where
  "upper_char c =
     (if 97 \<le> (of_char c :: nat) \<and> (of_char c :: nat) \<le> 122
      then char_of ((of_char c :: nat) - 32) else c)"

definition lower :: "string \<Rightarrow> string" where
  "lower s = map lower_char s"

definition upper :: "string \<Rightarrow> string" where
  "upper s = map upper_char s"

text \<open>The characters \<open>str.split()\<close> treats as white space (ASCII range).\<close>

definition is_space :: "char \<Rightarrow> bool" where
  "is_space c = ((9 \<le> (of_char c :: nat) \<and> (of_char c :: nat) \<le> 13)
                 \<or> (28 \<le> (of_char c :: nat) \<and> (of_char c :: nat) \<le> 32))"

text \<open>\<open>s.split()\<close>: the maximal runs of non-space characters, in order.\<close>

fun split_ws :: "string \<Rightarrow> string \<Rightarrow> string list" where
  "split_ws cur [] = (if cur = [] then [] else [cur])"
| "split_ws cur (c # cs) =
     (if is_space c then (if cur = [] then split_ws [] cs else cur # split_ws [] cs)
      else split_ws (cur @ [c]) cs)"

definition split :: "string \<Rightarrow> string list" where
  "split s = split_ws [] s"

text \<open>\<open>s.replace(" ", "")\<close>.\<close>

definition remove_spaces :: "string \<Rightarrow> string" where
  "remove_spaces s = filter (\<lambda>c. c \<noteq> CHR '' '') s"

section \<open>BlockingStrategy.soundex\<close>

definition soundex_mapping :: "char \<Rightarrow> char option" where
  "soundex_mapping c =
     (if c \<in> set ''BFPV'' then Some CHR ''1''
      else if c \<in> set ''CGJKQSXZ'' then Some CHR ''2''
      else if c \<in> set ''DT'' then Some CHR ''3''
      else if c = CHR ''L'' then Some CHR ''4''
      else if c \<in> set ''MN'' then Some CHR ''5''
      else if c = CHR ''R'' then Some CHR ''6''
      else None)"

text \<open>\<open>mapping.get(c, '0')\<close>.\<close>

definition soundex_code :: "char \<Rightarrow> char" where
  "soundex_code c = (case soundex_mapping c of Some d \<Rightarrow> d | None \<Rightarrow> CHR ''0'')"

text \<open>The loop over \<open>name[1:]\<close>, with its \<open>break\<close> once the result has four characters.\<close>

fun soundex_loop :: "string \<Rightarrow> char \<Rightarrow> string \<Rightarrow> string" where
  "soundex_loop [] prev_code result = result"
| "soundex_loop (ch # rest) prev_code result =
     (let code = soundex_code ch in
      if code \<noteq> CHR ''0'' \<and> code \<noteq> prev_code
      then (let result' = result @ [code] in
            if length result' = 4 then result' else soundex_loop rest code result')
      else soundex_loop rest code result)"

definition soundex :: "string \<Rightarrow> string" where
  "soundex name =
     (if name = [] then ''0000''
      else (let name' = upper name;
                result = soundex_loop (tl name') (soundex_code (hd name')) [hd name']
            in take 4 (result @ ''0000'')))"

section \<open>SimilarityScorer\<close>

subsection \<open>Levenshtein\<close>

text \<open>One step of the inner loop: \<open>curr_row.append(min(insertions, deletions, substitutions))\<close>.\<close>

definition lev_inner_step :: "char \<Rightarrow> nat list \<Rightarrow> nat list \<Rightarrow> nat \<times> char \<Rightarrow> nat list" where
  "lev_inner_step c1 prev_row curr_row jc =
     (case jc of (j, c2) \<Rightarrow>
        (let insertions = prev_row ! (j + 1) + 1;
             deletions = curr_row ! j + 1;
             substitutions = prev_row ! j + (if c1 \<noteq> c2 then 1 else 0)
         in curr_row @ [min insertions (min deletions substitutions)]))"

text \<open>One step of the outer loop: the row for character \<open>c1\<close> at index \<open>i\<close>.\<close>

definition lev_outer_step :: "string \<Rightarrow> nat list \<Rightarrow> nat \<times> char \<Rightarrow> nat list" where
  "lev_outer_step s2 prev_row ic =
     (case ic of (i, c1) \<Rightarrow> foldl (lev_inner_step c1 prev_row) [i + 1] (enumerate 0 s2))"

definition levenshtein_distance :: "string \<Rightarrow> string \<Rightarrow> nat" where
  "levenshtein_distance s1 s2 =
     (let (s1, s2) = (if length s1 < length s2 then (s2, s1) else (s1, s2)) in
      if length s2 = 0 then length s1
      else last (foldl (lev_outer_step s2) [0..<length s2 + 1] (enumerate 0 s1)))"

definition levenshtein_similarity :: "string \<Rightarrow> string \<Rightarrow> real" where
  "levenshtein_similarity s1 s2 =
     (if s1 = [] \<and> s2 = [] then 1
      else if s1 = [] \<or> s2 = [] then 0
      else (let distance = levenshtein_distance (lower s1) (lower s2);
                max_len = max (length s1) (length s2)
            in 1 - real distance / real max_len))"

subsection \<open>Jaro\<close>

text \<open>
  The matching loop. The state is \<open>(s1_matches, s2_matches, matches)\<close>; for index \<open>i\<close>
  the inner \<open>for j in range(start, end)\<close> takes the first \<open>j\<close> that is not yet matched
  and carries the same character, and stops there (\<open>break\<close>).
\<close>

definition jaro_match_step ::
  "string \<Rightarrow> int \<Rightarrow> bool list \<times> bool list \<times> nat \<Rightarrow> nat \<times> char \<Rightarrow> bool list \<times> bool list \<times> nat" where
  "jaro_match_step s2 match_distance st ic =
     (case st of (s1_matches, s2_matches, matches) \<Rightarrow>
      case ic of (i, c1) \<Rightarrow>
        (let start = nat (max 0 (int i - match_distance));
             end = nat (min (int i + match_distance + 1) (int (length s2)))
         in case find (\<lambda>j. \<not> (s2_matches ! j \<or> c1 \<noteq> s2 ! j)) [start..<end] of
              None \<Rightarrow> (s1_matches, s2_matches, matches)
            | Some j \<Rightarrow> (s1_matches[i := True], s2_matches[j := True], matches + 1)))"

text \<open>
  \<open>while not s2_matches[k]: k += 1\<close>. Reading \<open>s2_matches[k]\<close> beyond the end raises
  IndexError in Python: the model returns \<open>None\<close> there.
\<close>

function jaro_skip :: "bool list \<Rightarrow> nat \<Rightarrow> nat option" where
  "jaro_skip s2_matches k =
     (if k \<ge> length s2_matches then None
      else if \<not> s2_matches ! k then jaro_skip s2_matches (k + 1)
      else Some k)"
  by pat_completeness auto
termination
  by (relation "measure (\<lambda>(m, k). length m - k)") auto

text \<open>The transposition loop over \<open>enumerate(s1)\<close>, with state \<open>(k, transpositions)\<close>.\<close>

fun jaro_transp_loop ::
  "string \<Rightarrow> bool list \<Rightarrow> bool list \<Rightarrow> (nat \<times> char) list \<Rightarrow> nat \<Rightarrow> nat \<Rightarrow> nat option" where
  "jaro_transp_loop s2 s1_matches s2_matches [] k transpositions = Some transpositions"
| "jaro_transp_loop s2 s1_matches s2_matches ((i, c1) # rest) k transpositions =
     (if \<not> s1_matches ! i then jaro_transp_loop s2 s1_matches s2_matches rest k transpositions
      else case jaro_skip s2_matches k of
             None \<Rightarrow> None
           | Some k' \<Rightarrow>
               jaro_transp_loop s2 s1_matches s2_matches rest (k' + 1)
                 (if c1 \<noteq> s2 ! k' then transpositions + 1 else transpositions))"

text \<open>\<open>jaro_similarity\<close>; \<open>None\<close> stands for the IndexError of the transposition loop.\<close>

definition jaro_similarity :: "string \<Rightarrow> string \<Rightarrow> real option" where
  "jaro_similarity s1 s2 =
     (if s1 = [] \<and> s2 = [] then Some 1
      else if s1 = [] \<or> s2 = [] then Some 0
      else (let s1 = lower s1; s2 = lower s2;
                match_distance = int (max (length s1) (length s2)) div 2 - 1;
                match_distance = (if match_distance < 0 then 0 else match_distance);
                (s1_matches, s2_matches, matches) =
                   foldl (jaro_match_step s2 match_distance)
                     (replicate (length s1) False, replicate (length s2) False, 0)
                     (enumerate 0 s1)
            in if matches = 0 then Some 0
               else case jaro_transp_loop s2 s1_matches s2_matches (enumerate 0 s1) 0 0 of
                      None \<Rightarrow> None
                    | Some transpositions \<Rightarrow>
                        Some ((real matches / real (length s1) + real matches / real (length s2)
                               + (real matches - real transpositions / 2) / real matches) / 3)))"

text \<open>The common-prefix loop of Jaro-Winkler: it stops at the first differing index.\<close>

definition common_prefix_len :: "string \<Rightarrow> string \<Rightarrow> nat" where
  "common_prefix_len s1 s2 =
     (let s1_lower = lower s1; s2_lower = lower s2 in
      length (takeWhile (\<lambda>i. s1_lower ! i = s2_lower ! i)
                [0..<min (length s1) (min (length s2) 4)]))"

definition jaro_winkler_similarity_p :: "string \<Rightarrow> string \<Rightarrow> real \<Rightarrow> real option" where
  "jaro_winkler_similarity_p s1 s2 p =
     (case jaro_similarity s1 s2 of
        None \<Rightarrow> None
      | Some jaro \<Rightarrow> Some (jaro + real (common_prefix_len s1 s2) * p * (1 - jaro)))"

definition jaro_winkler_similarity :: "string \<Rightarrow> string \<Rightarrow> real option" where
  "jaro_winkler_similarity s1 s2 = jaro_winkler_similarity_p s1 s2 (1 / 10)"

subsection \<open>Jaccard, token and phonetic similarity\<close>

definition get_ngrams :: "nat \<Rightarrow> string \<Rightarrow> string set" where
  "get_ngrams ngram s =
     (let s = remove_spaces (lower s) in
      if length s < ngram then {s}
      else set (map (\<lambda>i. take ngram (drop i s)) [0..<length s - ngram + 1]))"

definition jaccard_similarity_n :: "string \<Rightarrow> string \<Rightarrow> nat \<Rightarrow> real" where
  "jaccard_similarity_n s1 s2 ngram =
     (if s1 = [] \<and> s2 = [] then 1
      else if s1 = [] \<or> s2 = [] then 0
      else (let set1 = get_ngrams ngram s1; set2 = get_ngrams ngram s2;
                intersection = card (set1 \<inter> set2);
                union = card (set1 \<union> set2)
            in if union > 0 then real intersection / real union else 0))"

definition jaccard_similarity :: "string \<Rightarrow> string \<Rightarrow> real" where
  "jaccard_similarity s1 s2 = jaccard_similarity_n s1 s2 2"

definition token_based_similarity :: "string \<Rightarrow> string \<Rightarrow> real" where
  "token_based_similarity s1 s2 =
     (if s1 = [] \<and> s2 = [] then 1
      else if s1 = [] \<or> s2 = [] then 0
      else (let tokens1 = set (split (lower s1)); tokens2 = set (split (lower s2)) in
            if tokens1 = {} \<or> tokens2 = {} then 0
            else real (card (tokens1 \<inter> tokens2)) / real (card (tokens1 \<union> tokens2))))"

definition phonetic_similarity :: "string \<Rightarrow> string \<Rightarrow> real" where
  "phonetic_similarity s1 s2 =
     (let soundex1 = soundex s1; soundex2 = soundex s2 in
      if soundex1 = soundex2 then 1
      else (let matches = length (filter (\<lambda>(c1, c2). c1 = c2) (zip soundex1 soundex2))
            in real matches / 4))"

subsection \<open>Composite name score\<close>

definition composite_name_score :: "string \<Rightarrow> string \<Rightarrow> real option" where
  "composite_name_score name1 name2 =
     (case jaro_winkler_similarity name1 name2 of
        None \<Rightarrow> None
      | Some jaro_winkler \<Rightarrow>
          Some (jaro_winkler * (30 / 100)
                + levenshtein_similarity name1 name2 * (25 / 100)
                + jaccard_similarity name1 name2 * (15 / 100)
                + token_based_similarity name1 name2 * (20 / 100)
                + phonetic_similarity name1 name2 * (10 / 100)))"

section \<open>Records and resolved entities\<close>

text \<open>
  An attribute dictionary is an association list in insertion order. Attribute values
  are strings, as in every record the repository builds; an absent or \<open>None\<close> value
  is an absent key, and the empty string is the only falsy value.
\<close>

type_synonym attrs = "(string \<times> string) list"

record EntityRecord =
  rid :: string
  source_system :: string
  entity_type :: string
  attributes :: attrs

record ResolvedEntity =
  resolved_id :: string
  canonical_name :: string
  res_entity_type :: string
  source_records :: "EntityRecord list"
  confidence_score :: real
  res_attributes :: attrs

datatype error = ValueError | TypeError

text \<open>\<open>d.get(k)\<close> and \<open>d.get(k) or d.get(k', default)\<close> on string-valued dictionaries.\<close>

definition get_or :: "attrs \<Rightarrow> string \<Rightarrow> string \<Rightarrow> string \<Rightarrow> string" where
  "get_or d k k' dflt =
     (case map_of d k of
        Some v \<Rightarrow> (if v \<noteq> [] then v else (case map_of d k' of Some w \<Rightarrow> w | None \<Rightarrow> dflt))
      | None \<Rightarrow> (case map_of d k' of Some w \<Rightarrow> w | None \<Rightarrow> dflt))"

text \<open>\<open>sep.join(xs)\<close>.\<close>

fun join :: "string \<Rightarrow> string list \<Rightarrow> string" where
  "join sep [] = []"
| "join sep [x] = x"
| "join sep (x # y # ys) = x @ sep @ join sep (y # ys)"

section \<open>EntityResolutionEngine.create_canonical_record\<close>

text \<open>
  \<open>hashlib.md5(...).hexdigest()\<close> belongs to the Python library, not to the repository:
  the digest is the parameter \<open>md5_hex\<close>.
\<close>

definition canonical_resolved_id :: "(string \<Rightarrow> string) \<Rightarrow> EntityRecord list \<Rightarrow> string" where
  "canonical_resolved_id md5_hex cluster =
     (let sorted_ids = sort (map rid cluster) in take 16 (md5_hex (join ''_'' sorted_ids)))"

text \<open>The survivorship loop: the first truthy value seen for a key is kept.\<close>

definition canonical_add :: "attrs \<Rightarrow> string \<times> string \<Rightarrow> attrs" where
  "canonical_add canonical_attrs kv =
     (case kv of (key, v) \<Rightarrow>
        if key \<notin> fst ` set canonical_attrs \<and> v \<noteq> [] then canonical_attrs @ [(key, v)]
        else canonical_attrs)"

definition canonical_attributes :: "EntityRecord list \<Rightarrow> attrs" where
  "canonical_attributes cluster =
     (let completeness = map (\<lambda>r. (length (filter (\<lambda>v. v \<noteq> []) (map snd (attributes r))), r)) cluster;
          completeness = sort_key (\<lambda>x. - int (fst x)) completeness
      in foldl (\<lambda>canonical_attrs x. foldl canonical_add canonical_attrs (attributes (snd x)))
           [] completeness)"

definition create_canonical_record ::
  "(string \<Rightarrow> string) \<Rightarrow> EntityRecord list \<Rightarrow> error + ResolvedEntity" where
  "create_canonical_record md5_hex cluster =
     (if cluster = [] then Inl ValueError
      else (let canonical_attrs = canonical_attributes cluster;
                num_sources = card (set (map source_system cluster));
                confidence = min 1 (5 / 10 + real num_sources * (1 / 10)
                                     + real (length cluster) * (5 / 100))
            in Inr \<lparr> resolved_id = canonical_resolved_id md5_hex cluster,
                     canonical_name = get_or canonical_attrs ''name_standardized'' ''name'' ''Unknown'',
                     res_entity_type = entity_type (hd cluster),
                     source_records = cluster,
                     confidence_score = confidence,
                     res_attributes = canonical_attrs \<rparr>))"

section \<open>EntityResolutionEngine.score_candidate_pair\<close>

record MatchCandidate =
  record_a :: EntityRecord
  record_b :: EntityRecord
  blocking_key :: string
  similarity_scores :: "(string \<times> real) list"
  overall_score :: real

text \<open>\<open>d.get(k)\<close> read as a truth value, and as the string it holds.\<close>

definition attr_truthy :: "attrs \<Rightarrow> string \<Rightarrow> bool" where
  "attr_truthy d k = (case map_of d k of Some v \<Rightarrow> v \<noteq> [] | None \<Rightarrow> False)"

definition attr_value :: "attrs \<Rightarrow> string \<Rightarrow> string" where
  "attr_value d k = (case map_of d k of Some v \<Rightarrow> v | None \<Rightarrow> [])"

definition attribute_weights :: "(string \<times> real) list" where
  "attribute_weights =
     [(''name'', 35 / 100), (''dob'', 20 / 100), (''address'', 15 / 100),
      (''national_id'', 15 / 100), (''passport'', 10 / 100), (''tax_id'', 5 / 100),
      (''company_reg'', 5 / 100)]"

text \<open>\<open>weights.get(k, 0.1)\<close>.\<close>

definition weight_of :: "string \<Rightarrow> real" where
  "weight_of k = (case map_of attribute_weights k of Some w \<Rightarrow> w | None \<Rightarrow> 1 / 10)"

text \<open>The loop over the identifier types: exact match when both records carry the identifier.\<close>

definition id_scores :: "attrs \<Rightarrow> attrs \<Rightarrow> (string \<times> real) list" where
  "id_scores attrs_a attrs_b =
     concat (map (\<lambda>id_type.
                    if attr_truthy attrs_a id_type \<and> attr_truthy attrs_b id_type
                    then [(id_type, if attr_value attrs_a id_type = attr_value attrs_b id_type
                                    then 1 else 0)]
                    else [])
               [''national_id'', ''passport'', ''tax_id'', ''company_reg''])"

text \<open>
  The dictionary \<open>scores\<close> is the list of its entries in insertion order: the name
  entry, the date-of-birth entry, the address entry, the identifier entries. \<open>None\<close>
  is the IndexError that \<open>jaro_similarity\<close> could raise.
\<close>

definition name_scores :: "attrs \<Rightarrow> attrs \<Rightarrow> (string \<times> real) list option" where
  "name_scores attrs_a attrs_b =
     (let name_a = get_or attrs_a ''name_standardized'' ''name'' [];
          name_b = get_or attrs_b ''name_standardized'' ''name'' []
      in if name_a \<noteq> [] \<and> name_b \<noteq> []
         then map_option (\<lambda>s. [(''name'', s)]) (composite_name_score name_a name_b)
         else Some [])"

definition dob_scores :: "attrs \<Rightarrow> attrs \<Rightarrow> (string \<times> real) list" where
  "dob_scores attrs_a attrs_b =
     (if attr_truthy attrs_a ''date_of_birth'' \<and> attr_truthy attrs_b ''date_of_birth''
      then [(''dob'', if attr_value attrs_a ''date_of_birth'' = attr_value attrs_b ''date_of_birth''
                      then 1 else 0)]
      else [])"

definition address_scores :: "attrs \<Rightarrow> attrs \<Rightarrow> (string \<times> real) list option" where
  "address_scores attrs_a attrs_b =
     (let addr_a = get_or attrs_a ''address_standardized'' ''address'' [];
          addr_b = get_or attrs_b ''address_standardized'' ''address'' []
      in if addr_a \<noteq> [] \<and> addr_b \<noteq> []
         then map_option (\<lambda>s. [(''address'', s)]) (jaro_winkler_similarity addr_a addr_b)
         else Some [])"

text \<open>The overall score: the weighted mean over the attributes that were scored.\<close>

definition overall_of :: "(string \<times> real) list \<Rightarrow> real" where
  "overall_of scores =
     (let total_weight = sum_list (map (\<lambda>ks. weight_of (fst ks)) scores)
      in if total_weight > 0
         then sum_list (map (\<lambda>ks. snd ks * weight_of (fst ks)) scores) / total_weight
         else 0)"

definition score_candidate_pair :: "EntityRecord \<Rightarrow> EntityRecord \<Rightarrow> MatchCandidate option" where
  "score_candidate_pair rec_a rec_b =
     (case name_scores (attributes rec_a) (attributes rec_b) of
        None \<Rightarrow> None
      | Some ns \<Rightarrow>
          (case address_scores (attributes rec_a) (attributes rec_b) of
             None \<Rightarrow> None
           | Some ads \<Rightarrow>
               (let scores = ns @ dob_scores (attributes rec_a) (attributes rec_b) @ ads
                             @ id_scores (attributes rec_a) (attributes rec_b)
                in Some \<lparr> record_a = rec_a, record_b = rec_b, blocking_key = [],
                          similarity_scores = scores, overall_score = overall_of scores \<rparr>)))"

section \<open>The network model\<close>

datatype RelationshipType =
    OWNS | CONTROLS | DIRECTOR_OF | SHAREHOLDER_OF | EMPLOYEE_OF | RELATED_TO | FAMILY_OF
  | TRANSACTED_WITH | SENT_TO | RECEIVED_FROM
  | ACCOUNT_HOLDER | AUTHORIZED_SIGNATORY | BENEFICIAL_OWNER
  | REGISTERED_AT | RESIDES_AT | OPERATES_FROM
  | CONTACTED | SHARES_PHONE | SHARES_EMAIL | SHARES_DEVICE
  | CO_LOCATED | SAME_NETWORK | POTENTIAL_DUPLICATE

text \<open>The \<open>.value\<close> of a member of the enumeration.\<close>

fun relationship_value :: "RelationshipType \<Rightarrow> string" where
  "relationship_value OWNS = ''OWNS''"
| "relationship_value CONTROLS = ''CONTROLS''"
| "relationship_value DIRECTOR_OF = ''DIRECTOR_OF''"
| "relationship_value SHAREHOLDER_OF = ''SHAREHOLDER_OF''"
| "relationship_value EMPLOYEE_OF = ''EMPLOYEE_OF''"
| "relationship_value RELATED_TO = ''RELATED_TO''"
| "relationship_value FAMILY_OF = ''FAMILY_OF''"
| "relationship_value TRANSACTED_WITH = ''TRANSACTED_WITH''"
| "relationship_value SENT_TO = ''SENT_TO''"
| "relationship_value RECEIVED_FROM = ''RECEIVED_FROM''"
| "relationship_value ACCOUNT_HOLDER = ''ACCOUNT_HOLDER''"
| "relationship_value AUTHORIZED_SIGNATORY = ''AUTHORIZED_SIGNATORY''"
| "relationship_value BENEFICIAL_OWNER = ''BENEFICIAL_OWNER''"
| "relationship_value REGISTERED_AT = ''REGISTERED_AT''"
| "relationship_value RESIDES_AT = ''RESIDES_AT''"
| "relationship_value OPERATES_FROM = ''OPERATES_FROM''"
| "relationship_value CONTACTED = ''CONTACTED''"
| "relationship_value SHARES_PHONE = ''SHARES_PHONE''"
| "relationship_value SHARES_EMAIL = ''SHARES_EMAIL''"
| "relationship_value SHARES_DEVICE = ''SHARES_DEVICE''"
| "relationship_value CO_LOCATED = ''CO_LOCATED''"
| "relationship_value SAME_NETWORK = ''SAME_NETWORK''"
| "relationship_value POTENTIAL_DUPLICATE = ''POTENTIAL_DUPLICATE''"

definition all_relationship_types :: "RelationshipType list" where
  "all_relationship_types =
     [OWNS, CONTROLS, DIRECTOR_OF, SHAREHOLDER_OF, EMPLOYEE_OF, RELATED_TO, FAMILY_OF,
      TRANSACTED_WITH, SENT_TO, RECEIVED_FROM, ACCOUNT_HOLDER, AUTHORIZED_SIGNATORY,
      BENEFICIAL_OWNER, REGISTERED_AT, RESIDES_AT, OPERATES_FROM, CONTACTED, SHARES_PHONE,
      SHARES_EMAIL, SHARES_DEVICE, CO_LOCATED, SAME_NETWORK, POTENTIAL_DUPLICATE]"

text \<open>
  \<open>RelationshipType(s)\<close>: the member whose value is \<open>s\<close>; Python raises ValueError
  when there is none.
\<close>

definition relationship_type_of :: "string \<Rightarrow> error + RelationshipType" where
  "relationship_type_of s =
     (case find (\<lambda>t. relationship_value t = s) all_relationship_types of
        Some t \<Rightarrow> Inr t
      | None \<Rightarrow> Inl ValueError)"

text \<open>\<open>try: ... except ValueError: ...\<close> around a computation that yields a value.\<close>

definition except_ValueError :: "error + 'a \<Rightarrow> 'a \<Rightarrow> error + 'a" where
  "except_ValueError r handler =
     (case r of Inr v \<Rightarrow> Inr v | Inl ValueError \<Rightarrow> Inr handler | Inl e \<Rightarrow> Inl e)"

text \<open>
  Values of the dynamically typed dictionaries of nodes and edges: \<open>None\<close>, a string
  or a number. The time stamp \<open>created_at\<close> of nodes and edges is left out.
\<close>

datatype pyval = PNone | PStr string | PNum real

fun truthy :: "pyval \<Rightarrow> bool" where
  "truthy PNone = False"
| "truthy (PStr s) = (s \<noteq> [])"
| "truthy (PNum x) = (x \<noteq> 0)"

type_synonym pydict = "(string \<times> pyval) list"

record NetworkNode =
  node_id :: string
  node_type :: string
  label :: string
  node_attributes :: pydict
  risk_score :: real
  node_source_systems :: "string list"

record NetworkEdge =
  edge_id :: string
  source_id :: string
  target_id :: string
  relationship_type :: RelationshipType
  weight :: real
  edge_attributes :: pydict
  evidence :: "pydict list"
  confidence :: real

text \<open>The two dictionaries of a network, in insertion order.\<close>

record Network =
  nodes :: "(string \<times> NetworkNode) list"
  edges :: "(string \<times> NetworkEdge) list"

text \<open>\<open>d[k] = v\<close> on an insertion-ordered dictionary: an existing key keeps its place.\<close>

fun dict_set :: "('k \<times> 'v) list \<Rightarrow> 'k \<Rightarrow> 'v \<Rightarrow> ('k \<times> 'v) list" where
  "dict_set [] k v = [(k, v)]"
| "dict_set (p # ps) k v = (if fst p = k then (k, v) # ps else p # dict_set ps k v)"

definition add_node :: "Network \<Rightarrow> NetworkNode \<Rightarrow> Network" where
  "add_node net node = net\<lparr>nodes := dict_set (nodes net) (node_id node) node\<rparr>"

definition add_edge :: "Network \<Rightarrow> NetworkEdge \<Rightarrow> Network" where
  "add_edge net edge = net\<lparr>edges := dict_set (edges net) (edge_id edge) edge\<rparr>"

subsection \<open>Network.get_neighbors\<close>

text \<open>
  A Python set is a list without duplicates. The order in which a \<open>for\<close> loop runs
  through a set is not fixed by the language: it is the parameter \<open>set_order\<close>, which
  permutes the elements.

  The body of the innermost loop, for node \<open>nid\<close> and one edge; the state is
  \<open>(next_level, neighbors)\<close>.
\<close>

definition neighbors_edge_step ::
  "string \<Rightarrow> string list \<times> string list \<Rightarrow> NetworkEdge \<Rightarrow> string list \<times> string list" where
  "neighbors_edge_step nid st edge =
     (case st of (next_level, neighbors) \<Rightarrow>
        if source_id edge = nid \<and> target_id edge \<notin> set neighbors
        then (List.insert (target_id edge) next_level, List.insert (target_id edge) neighbors)
        else if target_id edge = nid \<and> source_id edge \<notin> set neighbors
        then (List.insert (source_id edge) next_level, List.insert (source_id edge) neighbors)
        else (next_level, neighbors))"

text \<open>One round of \<open>for _ in range(depth)\<close>; the state is \<open>(current_level, neighbors)\<close>.\<close>

definition neighbors_level ::
  "(string list \<Rightarrow> string list) \<Rightarrow> Network \<Rightarrow> string list \<times> string list \<Rightarrow> string list \<times> string list" where
  "neighbors_level set_order net st =
     (case st of (current_level, neighbors) \<Rightarrow>
        foldl (\<lambda>st' nid. foldl (neighbors_edge_step nid) st' (map snd (edges net)))
          ([], neighbors) (set_order current_level))"

definition get_neighbors ::
  "(string list \<Rightarrow> string list) \<Rightarrow> Network \<Rightarrow> string \<Rightarrow> int \<Rightarrow> string set" where
  "get_neighbors set_order net nid depth =
     (if depth < 1 then {}
      else set (snd ((neighbors_level set_order net ^^ nat depth) ([nid], []))))"

subsection \<open>Inference rules\<close>

text \<open>
  A rule is an object with a method \<open>apply(network)\<close> that returns a list of edges.
  The repository has two rule classes; \<open>CustomRule\<close> stands for any other subclass
  handed to \<open>add_inference_rule\<close>.
\<close>

datatype inference_rule =
    SharedAttributeRule string RelationshipType real
  | TransactionPatternRule nat nat real
  | CustomRule "Network \<Rightarrow> error + NetworkEdge list"

text \<open>\<open>attr_groups[value].append(node)\<close> on a \<open>defaultdict(list)\<close>.\<close>

fun group_append :: "('k \<times> 'v list) list \<Rightarrow> 'k \<Rightarrow> 'v \<Rightarrow> ('k \<times> 'v list) list" where
  "group_append [] k v = [(k, [v])]"
| "group_append (p # ps) k v = (if fst p = k then (k, snd p @ [v]) # ps else p # group_append ps k v)"

text \<open>\<open>for i, a in enumerate(xs): for b in xs[i+1:]\<close>: the pairs in loop order.\<close>

fun pairs_after :: "'a list \<Rightarrow> ('a \<times> 'a) list" where
  "pairs_after [] = []"
| "pairs_after (x # xs) = map (\<lambda>y. (x, y)) xs @ pairs_after xs"

definition shared_attribute_apply ::
  "string \<Rightarrow> RelationshipType \<Rightarrow> real \<Rightarrow> Network \<Rightarrow> NetworkEdge list" where
  "shared_attribute_apply attribute_name rel_type conf net =
     (let attr_groups =
            foldl (\<lambda>groups node.
                     (case map_of (node_attributes node) attribute_name of
                        None \<Rightarrow> groups
                      | Some v \<Rightarrow> if truthy v then group_append groups v node else groups))
              [] (map snd (nodes net))
      in concat (map (\<lambda>(v, group).
                        if length group < 2 then []
                        else map (\<lambda>(node_a, node_b).
                                    \<lparr> edge_id = ''inferred_'' @ node_id node_a @ ''_'' @ node_id node_b
                                                  @ ''_'' @ attribute_name,
                                       source_id = node_id node_a,
                                       target_id = node_id node_b,
                                       relationship_type = rel_type,
                                       weight = 1,
                                       edge_attributes = [],
                                       evidence = [[(''rule'', PStr ''shared_attribute''),
                                                    (''attribute'', PStr attribute_name),
                                                    (''value'', v)]],
                                       confidence = conf \<rparr>)
                               (pairs_after group))
                   attr_groups))"

text \<open>
  The counting loop of \<open>TransactionPatternRule.apply\<close>. The dictionaries \<open>tx_counts\<close>
  and \<open>tx_amounts\<close> are one list of \<open>(pair, (count, amount))\<close>; adding an amount that
  is not a number raises TypeError.
\<close>

fun tx_bump ::
  "((string \<times> string) \<times> nat \<times> real) list \<Rightarrow> string \<times> string \<Rightarrow> real
   \<Rightarrow> ((string \<times> string) \<times> nat \<times> real) list" where
  "tx_bump [] pair amount = [(pair, (1, amount))]"
| "tx_bump (p # ps) pair amount =
     (if fst p = pair then (pair, (fst (snd p) + 1, snd (snd p) + amount)) # ps
      else p # tx_bump ps pair amount)"

fun tx_count_loop ::
  "NetworkEdge list \<Rightarrow> ((string \<times> string) \<times> nat \<times> real) list
   \<Rightarrow> error + ((string \<times> string) \<times> nat \<times> real) list" where
  "tx_count_loop [] counts = Inr counts"
| "tx_count_loop (edge # rest) counts =
     (if relationship_type edge \<in> {SENT_TO, RECEIVED_FROM}
      then (let pair = (min (source_id edge) (target_id edge), max (source_id edge) (target_id edge))
            in case map_of (edge_attributes edge) ''amount'' of
                 None \<Rightarrow> tx_count_loop rest (tx_bump counts pair 0)
               | Some (PNum amount) \<Rightarrow> tx_count_loop rest (tx_bump counts pair amount)
               | Some _ \<Rightarrow> Inl TypeError)
      else tx_count_loop rest counts)"

definition transaction_pattern_apply :: "nat \<Rightarrow> real \<Rightarrow> Network \<Rightarrow> error + NetworkEdge list" where
  "transaction_pattern_apply min_transactions conf net =
     (case tx_count_loop (map snd (edges net)) [] of
        Inl e \<Rightarrow> Inl e
      | Inr counts \<Rightarrow>
          Inr (concat (map (\<lambda>((id_a, id_b), (count, amount)).
                 if count \<ge> min_transactions
                 then [\<lparr> edge_id = ''inferred_tx_'' @ id_a @ ''_'' @ id_b,
                          source_id = id_a,
                          target_id = id_b,
                          relationship_type = TRANSACTED_WITH,
                          weight = real count,
                          edge_attributes = [],
                          evidence = [[(''rule'', PStr ''transaction_pattern''),
                                       (''transaction_count'', PNum (real count)),
                                       (''total_amount'', PNum amount)]],
                          confidence = min 1 (conf + real count * (2 / 100)) \<rparr>]
                 else [])
               counts)))"

fun apply_rule :: "inference_rule \<Rightarrow> Network \<Rightarrow> error + NetworkEdge list" where
  "apply_rule (SharedAttributeRule attribute_name rel_type conf) net =
     Inr (shared_attribute_apply attribute_name rel_type conf net)"
| "apply_rule (TransactionPatternRule min_transactions time_window_days conf) net =
     transaction_pattern_apply min_transactions conf net"
| "apply_rule (CustomRule f) net = f net"

section \<open>NetworkGenerationEngine\<close>

record Engine =
  network :: Network
  inference_rules :: "inference_rule list"

definition default_rules :: "inference_rule list" where
  "default_rules =
     [SharedAttributeRule ''address'' CO_LOCATED (7 / 10),
      SharedAttributeRule ''phone'' SHARES_PHONE (8 / 10),
      SharedAttributeRule ''email'' SHARES_EMAIL (8 / 10),
      TransactionPatternRule 3 30 (85 / 100)]"

definition new_engine :: Engine where
  "new_engine = \<lparr> network = \<lparr> nodes = [], edges = [] \<rparr>, inference_rules = default_rules \<rparr>"

definition add_inference_rule :: "Engine \<Rightarrow> inference_rule \<Rightarrow> Engine" where
  "add_inference_rule eng rule = eng\<lparr>inference_rules := inference_rules eng @ [rule]\<rparr>"

definition create_node_from_entity ::
  "Engine \<Rightarrow> string \<Rightarrow> string \<Rightarrow> string \<Rightarrow> pydict \<Rightarrow> real \<Rightarrow> string list \<Rightarrow> Engine \<times> NetworkNode" where
  "create_node_from_entity eng entity_id ent_type name attrs risk srcs =
     (let node = \<lparr> node_id = entity_id, node_type = ent_type, label = name,
                   node_attributes = attrs, risk_score = risk, node_source_systems = srcs \<rparr>
      in (eng\<lparr>network := add_node (network eng) node\<rparr>, node))"

text \<open>
  \<open>create_edge\<close>: the edge id is the first 16 characters of the digest of
  \<open>source_target_kind\<close>. The call returns the engine with the edge stored, and the edge.
\<close>

definition derived_edge_id :: "(string \<Rightarrow> string) \<Rightarrow> string \<Rightarrow> string \<Rightarrow> RelationshipType \<Rightarrow> string" where
  "derived_edge_id md5_hex src tgt rel_type =
     take 16 (md5_hex (src @ ''_'' @ tgt @ ''_'' @ relationship_value rel_type))"

definition create_edge ::
  "(string \<Rightarrow> string) \<Rightarrow> Engine \<Rightarrow> string \<Rightarrow> string \<Rightarrow> RelationshipType \<Rightarrow> pydict \<Rightarrow> real \<Rightarrow> real
   \<Rightarrow> Engine \<times> NetworkEdge" where
  "create_edge md5_hex eng src tgt rel_type attrs w conf =
     (let edge = \<lparr> edge_id = derived_edge_id md5_hex src tgt rel_type,
                   source_id = src, target_id = tgt, relationship_type = rel_type,
                   weight = w, edge_attributes = attrs, evidence = [], confidence = conf \<rparr>
      in (eng\<lparr>network := add_edge (network eng) edge\<rparr>, edge))"

text \<open>
  The request handler \<open>generate_network\<close> turns the relationship-kind string of each
  requested edge into a member of the enumeration, falls back to \<open>RELATED_TO\<close> on
  ValueError, and calls \<open>create_edge\<close> with the default weight and confidence.
\<close>

record NetworkEdgeInput =
  in_source_id :: string
  in_target_id :: string
  in_relationship_type :: string
  in_attributes :: pydict

definition create_requested_edge ::
  "(string \<Rightarrow> string) \<Rightarrow> Engine \<Rightarrow> NetworkEdgeInput \<Rightarrow> error + Engine \<times> NetworkEdge" where
  "create_requested_edge md5_hex eng edge =
     (case except_ValueError (relationship_type_of (in_relationship_type edge)) RELATED_TO of
        Inl e \<Rightarrow> Inl e
      | Inr rel_type \<Rightarrow>
          Inr (create_edge md5_hex eng (in_source_id edge) (in_target_id edge) rel_type
                 (in_attributes edge) 1 1))"

subsection \<open>run_inference\<close>

text \<open>
  The inner loop over the edges a rule returned; the state is the network and the
  list \<open>inferred_edges\<close>.
\<close>

definition inference_add :: "Network \<times> NetworkEdge list \<Rightarrow> NetworkEdge \<Rightarrow> Network \<times> NetworkEdge list" where
  "inference_add st edge =
     (case st of (net, inferred_edges) \<Rightarrow>
        if edge_id edge \<notin> fst ` set (edges net)
        then (add_edge net edge, inferred_edges @ [edge])
        else (net, inferred_edges))"

text \<open>
  The loop over the rules. A rule that raises ends the call; the network keeps the
  edges added so far.
\<close>

fun run_rules ::
  "inference_rule list \<Rightarrow> Network \<times> NetworkEdge list \<Rightarrow> Network \<times> (error + NetworkEdge list)" where
  "run_rules [] st = (fst st, Inr (snd st))"
| "run_rules (rule # rest) st =
     (case apply_rule rule (fst st) of
        Inl e \<Rightarrow> (fst st, Inl e)
      | Inr new_edges \<Rightarrow> run_rules rest (foldl inference_add st new_edges))"

definition run_inference :: "Engine \<Rightarrow> Engine \<times> (error + NetworkEdge list)" where
  "run_inference eng =
     (case run_rules (inference_rules eng) (network eng, []) of
        (net, res) \<Rightarrow> (eng\<lparr>network := net\<rparr>, res))"

subsection \<open>propagate_risk\<close>

text \<open>
  The body of the innermost loop for node \<open>n\<close> and one edge; the state is
  \<open>(next_level, visited, risk_contributions)\<close>. An empty neighbour id is falsy and skipped.
\<close>

definition risk_edge_step ::
  "real \<Rightarrow> string \<Rightarrow> string list \<times> string list \<times> (string \<times> real) list \<Rightarrow> NetworkEdge
   \<Rightarrow> string list \<times> string list \<times> (string \<times> real) list" where
  "risk_edge_step current_risk n st edge =
     (case st of (next_level, visited, risk_contributions) \<Rightarrow>
        (let neighbor_id = (if source_id edge = n then Some (target_id edge)
                            else if target_id edge = n then Some (source_id edge)
                            else None)
         in case neighbor_id of
              None \<Rightarrow> st
            | Some nb \<Rightarrow>
                if nb \<noteq> [] \<and> nb \<notin> set visited
                then (List.insert nb next_level, List.insert nb visited,
                      dict_set risk_contributions nb (current_risk * confidence edge * weight edge))
                else st))"

text \<open>
  \<open>for hop in range(max_hops)\<close>, with the \<open>break\<close> when no node was reached. The first
  argument counts the hops that remain.
\<close>

fun risk_loop ::
  "(string list \<Rightarrow> string list) \<Rightarrow> Network \<Rightarrow> real \<Rightarrow> nat \<Rightarrow> real
   \<Rightarrow> string list \<times> string list \<times> (string \<times> real) list \<Rightarrow> (string \<times> real) list" where
  "risk_loop set_order net decay_factor 0 current_risk st = snd (snd st)"
| "risk_loop set_order net decay_factor (Suc hops) current_risk st =
     (case st of (current_level, visited, risk_contributions) \<Rightarrow>
        (let current_risk = current_risk * decay_factor;
             (next_level, visited, risk_contributions) =
               foldl (\<lambda>st' n. foldl (risk_edge_step current_risk n) st' (map snd (edges net)))
                 ([], visited, risk_contributions) (set_order current_level)
         in if next_level = [] then risk_contributions
            else risk_loop set_order net decay_factor hops current_risk
                   (next_level, visited, risk_contributions)))"

definition propagate_risk ::
  "(string list \<Rightarrow> string list) \<Rightarrow> Engine \<Rightarrow> string \<Rightarrow> nat \<Rightarrow> real \<Rightarrow> (string \<times> real) list" where
  "propagate_risk set_order eng source_node_id max_hops decay_factor =
     (case map_of (nodes (network eng)) source_node_id of
        None \<Rightarrow> []
      | Some src \<Rightarrow>
          risk_loop set_order (network eng) decay_factor max_hops (risk_score src)
            ([source_node_id], [source_node_id], [(source_node_id, risk_score src)]))"

section \<open>Concrete inputs\<close>

text \<open>The record "Jane Mary Doe" of the demonstration batch.\<close>

definition jane_doe :: EntityRecord where
  "jane_doe = \<lparr> rid = ''CRM_002'', source_system = ''crm'', entity_type = ''individual'',
       attributes = [(''name'', ''Jane Mary Doe''), (''date_of_birth'', ''1990-07-22''),
                     (''address'', ''456 Oak Avenue, Singapore 654321'')] \<rparr>"



section \<open>Auxiliary notions for the proofs\<close>

text \<open>The textbook recursion for the edit distance, and the row of the dynamic programme.\<close>

fun edit_distance :: "'a list \<Rightarrow> 'a list \<Rightarrow> nat" where
  "edit_distance [] ys = length ys"
| "edit_distance xs [] = length xs"
| "edit_distance (x # xs) (y # ys) =
     min (edit_distance xs (y # ys) + 1)
       (min (edit_distance (x # xs) ys + 1) (edit_distance xs ys + (if x \<noteq> y then 1 else 0)))"

definition lev_row :: "string \<Rightarrow> string \<Rightarrow> nat list" where
  "lev_row A s2 = map (\<lambda>j. edit_distance A (rev (take j s2))) [0..<length s2 + 1]"

text \<open>
  The greedy matching of \<open>jaro_similarity\<close>: \<open>jaro_pm\<close> characterises the set of
  matched index pairs after \<open>n\<close> rounds, \<open>jaro_flags\<close> ties it to the flag lists.
\<close>

definition ctrue :: "bool list \<Rightarrow> nat" where
  "ctrue m = length (filter (\<lambda>b. b) m)"

definition jaro_compat :: "string \<Rightarrow> string \<Rightarrow> int \<Rightarrow> nat \<Rightarrow> nat \<Rightarrow> bool" where
  "jaro_compat s1 s2 d i j =
     (i < length s1 \<and> j < length s2 \<and> s1 ! i = s2 ! j \<and> int i - d \<le> int j \<and> int j \<le> int i + d)"

definition jaro_pm :: "string \<Rightarrow> string \<Rightarrow> int \<Rightarrow> nat \<Rightarrow> (nat \<times> nat) set \<Rightarrow> bool" where
  "jaro_pm s1 s2 d n M =
     ((\<forall>i j. (i, j) \<in> M \<longrightarrow> i < n \<and> jaro_compat s1 s2 d i j)
      \<and> (\<forall>i j j'. (i, j) \<in> M \<and> (i, j') \<in> M \<longrightarrow> j = j')
      \<and> (\<forall>i i' j. (i, j) \<in> M \<and> (i', j) \<in> M \<longrightarrow> i = i')
      \<and> (\<forall>i j. i < n \<and> jaro_compat s1 s2 d i j \<and> (i, j) \<notin> M
             \<longrightarrow> (\<exists>j'<j. (i, j') \<in> M) \<or> (\<exists>i'<i. (i', j) \<in> M)))"

definition jaro_flags ::
  "string \<Rightarrow> string \<Rightarrow> bool list \<times> bool list \<times> nat \<Rightarrow> (nat \<times> nat) set \<Rightarrow> bool" where
  "jaro_flags s1 s2 st M =
     (case st of (s1m, s2m, cnt) \<Rightarrow>
        length s1m = length s1 \<and> length s2m = length s2
        \<and> (\<forall>i<length s1. s1m ! i \<longleftrightarrow> i \<in> Domain M)
        \<and> (\<forall>j<length s2. s2m ! j \<longleftrightarrow> j \<in> Range M)
        \<and> cnt = ctrue s1m \<and> cnt = ctrue s2m)"

definition sel :: "'a list \<Rightarrow> bool list \<Rightarrow> 'a list" where
  "sel s m = map fst (filter snd (zip s m))"

definition mism :: "'a list \<Rightarrow> 'a list \<Rightarrow> nat" where
  "mism xs ys = length (filter (\<lambda>p. fst p \<noteq> snd p) (zip xs ys))"

definition jaro_md :: "string \<Rightarrow> string \<Rightarrow> int" where
  "jaro_md a b = (let md = int (max (length a) (length b)) div 2 - 1 in if md < 0 then 0 else md)"

definition jaro_loop :: "string \<Rightarrow> string \<Rightarrow> bool list \<times> bool list \<times> nat" where
  "jaro_loop a b =
     foldl (jaro_match_step b (jaro_md a b))
       (replicate (length a) False, replicate (length b) False, 0) (enumerate 0 a)"

definition jaro_value :: "string \<Rightarrow> string \<Rightarrow> bool list \<Rightarrow> bool list \<Rightarrow> nat \<Rightarrow> real" where
  "jaro_value a b m1 m2 c =
     (if c = 0 then 0
      else (real c / real (length a) + real c / real (length b)
            + (real c - real (mism (sel a m1) (sel b m2)) / 2) / real c) / 3)"

text \<open>Every entry of a score dictionary lies between 0 and 1.\<close>

definition scores_ok :: "(string \<times> real) list \<Rightarrow> bool" where
  "scores_ok scores = list_all (\<lambda>ks. 0 \<le> snd ks \<and> snd ks \<le> 1) scores"

section \<open>Levenshtein distance: the loop computes the edit distance\<close>

lemma edit_distance_Nil2 [simp]: "edit_distance xs [] = length xs"
  by (cases xs) auto

lemma edit_distance_sym: "edit_distance xs ys = edit_distance ys xs"
  by (induction xs ys rule: edit_distance.induct) (auto simp: min.commute min.left_commute)


lemma lev_inner_row:
  "j \<le> length s2 \<Longrightarrow>
   foldl (lev_inner_step c1 (lev_row A s2)) [length A + 1] (enumerate 0 (take j s2))
   = map (\<lambda>j'. edit_distance (c1 # A) (rev (take j' s2))) [0..<j + 1]"
proof (induction j)
  case 0
  then show ?case by simp
next
  case (Suc j)
  then have j: "j < length s2" by simp
  have tk: "take (Suc j) s2 = take j s2 @ [s2 ! j]"
    using j by (simp add: take_Suc_conv_app_nth)
  have en: "enumerate 0 (take (Suc j) s2) = enumerate 0 (take j s2) @ [(j, s2 ! j)]"
    using j by (simp add: tk enumerate_append_eq min_def)
  have p1: "lev_row A s2 ! Suc j = edit_distance A (s2 ! j # rev (take j s2))"
    using j by (simp add: lev_row_def nth_append tk del: upt_Suc)
  have p0: "lev_row A s2 ! j = edit_distance A (rev (take j s2))"
    using j by (simp add: lev_row_def nth_append del: upt_Suc)
  let ?cur = "map (\<lambda>j'. edit_distance (c1 # A) (rev (take j' s2))) [0..<j + 1]"
  have c: "?cur ! j = edit_distance (c1 # A) (rev (take j s2))"
    by (simp add: nth_append del: upt_Suc)
  have "foldl (lev_inner_step c1 (lev_row A s2)) [length A + 1] (enumerate 0 (take (Suc j) s2))
        = lev_inner_step c1 (lev_row A s2) ?cur (j, s2 ! j)"
    using Suc.IH j by (simp only: en foldl_append foldl.simps)
  also have "\<dots> = ?cur @ [edit_distance (c1 # A) (s2 ! j # rev (take j s2))]"
    unfolding lev_inner_step_def Let_def prod.case using c p0 p1 by simp
  also have "\<dots> = map (\<lambda>j'. edit_distance (c1 # A) (rev (take j' s2))) [0..<Suc j + 1]"
    by (simp add: tk)
  finally show ?case .
qed

lemma lev_outer_row: "lev_outer_step s2 (lev_row A s2) (length A, c1) = lev_row (c1 # A) s2"
  using lev_inner_row [of "length s2" s2 c1 A]
  by (simp add: lev_outer_step_def lev_row_def)

lemma lev_outer_rows:
  "i \<le> length s1 \<Longrightarrow>
   foldl (lev_outer_step s2) (lev_row [] s2) (enumerate 0 (take i s1)) = lev_row (rev (take i s1)) s2"
proof (induction i)
  case 0
  then show ?case by simp
next
  case (Suc i)
  then have i: "i < length s1" by simp
  have tk: "take (Suc i) s1 = take i s1 @ [s1 ! i]"
    using i by (simp add: take_Suc_conv_app_nth)
  have en: "enumerate 0 (take (Suc i) s1) = enumerate 0 (take i s1) @ [(i, s1 ! i)]"
    using i by (simp add: tk enumerate_append_eq min_def)
  have "foldl (lev_outer_step s2) (lev_row [] s2) (enumerate 0 (take (Suc i) s1))
        = lev_outer_step s2 (lev_row (rev (take i s1)) s2) (i, s1 ! i)"
    using Suc.IH i by (simp only: en foldl_append foldl.simps)
  also have "\<dots> = lev_row (s1 ! i # rev (take i s1)) s2"
    using lev_outer_row [of s2 "rev (take i s1)" "s1 ! i"] i by simp
  finally show ?case by (simp add: tk)
qed

lemma lev_row_Nil: "lev_row [] s2 = [0..<length s2 + 1]"
  by (auto simp: lev_row_def min_def intro!: map_idI simp del: upt_Suc)

lemma last_lev_row: "last (lev_row A s2) = edit_distance A (rev s2)"
  by (simp add: lev_row_def)

lemma lev_loop: "last (foldl (lev_outer_step s2) [0..<length s2 + 1] (enumerate 0 s1))
                 = edit_distance (rev s1) (rev s2)"
  using lev_outer_rows [of "length s1" s1 s2] by (simp add: lev_row_Nil last_lev_row del: upt_Suc)

lemma lev_loop_Suc: "last (foldl (lev_outer_step s2) [0..<Suc (length s2)] (enumerate 0 s1))
                 = edit_distance (rev s1) (rev s2)"
  using lev_loop [of s2 s1] by simp

lemma levenshtein_distance_eq: "levenshtein_distance s1 s2 = edit_distance (rev s1) (rev s2)"
proof (cases "length s1 < length s2")
  case True
  then have "levenshtein_distance s1 s2 = edit_distance (rev s2) (rev s1)"
    by (auto simp: levenshtein_distance_def lev_loop_Suc simp del: upt_Suc)
  then show ?thesis by (simp add: edit_distance_sym)
next
  case False
  then show ?thesis
    by (auto simp: levenshtein_distance_def lev_loop_Suc simp del: upt_Suc)
qed

lemma levenshtein_distance_sym: "levenshtein_distance s1 s2 = levenshtein_distance s2 s1"
  by (simp add: levenshtein_distance_eq edit_distance_sym)


section \<open>Jaro similarity: the matching is unique and symmetric\<close>

lemma ctrue_update:
  "i < length m \<Longrightarrow> \<not> m ! i \<Longrightarrow> ctrue (m[i := True]) = Suc (ctrue m)"
proof (induction m arbitrary: i)
  case Nil
  then show ?case by simp
next
  case (Cons b m)
  then show ?case by (cases i) (auto simp: ctrue_def)
qed


lemma find_upt_None: "find P [a..<b] = None \<longleftrightarrow> (\<forall>j. a \<le> j \<and> j < b \<longrightarrow> \<not> P j)"
  by (auto simp: find_None_iff)

lemma find_upt_Some:
  assumes "find P [a..<b] = Some j"
  shows "a \<le> j \<and> j < b \<and> P j \<and> (\<forall>k. a \<le> k \<and> k < j \<longrightarrow> \<not> P k)"
proof -
  from assms obtain i where i: "i < length [a..<b]" "P ([a..<b] ! i)" "j = [a..<b] ! i"
    "\<forall>l<i. \<not> P ([a..<b] ! l)"
    by (auto simp: find_Some_iff)
  then have ji: "j = a + i" and ib: "a + i < b" by auto
  have "\<not> P k" if "a \<le> k" "k < j" for k
  proof -
    from that ji have "k - a < i" by arith
    with i(4) have "\<not> P ([a..<b] ! (k - a))" by blast
    moreover have "[a..<b] ! (k - a) = k" using that ji ib by auto
    ultimately show ?thesis by simp
  qed
  with i ji ib show ?thesis by auto
qed

lemma jaro_window:
  "0 \<le> d \<Longrightarrow> i < length s1 \<Longrightarrow>
   (nat (max 0 (int i - d)) \<le> j \<and> j < nat (min (int i + d + 1) (int (length s2))) \<and> s1 ! i = s2 ! j)
   \<longleftrightarrow> jaro_compat s1 s2 d i j"
  by (auto simp: jaro_compat_def)

lemma jaro_step_inv:
  assumes pm: "jaro_pm s1 s2 d n M" and fl: "jaro_flags s1 s2 st M"
    and n: "n < length s1" and d: "0 \<le> d"
  shows "\<exists>M'. jaro_pm s1 s2 d (Suc n) M' \<and> jaro_flags s1 s2 (jaro_match_step s2 d st (n, s1 ! n)) M'"
proof -
  obtain s1m s2m cnt where st: "st = (s1m, s2m, cnt)" by (cases st) auto
  from fl st have len1: "length s1m = length s1" and len2: "length s2m = length s2"
    and f1: "\<And>i. i < length s1 \<Longrightarrow> s1m ! i \<longleftrightarrow> i \<in> Domain M"
    and f2: "\<And>j. j < length s2 \<Longrightarrow> s2m ! j \<longleftrightarrow> j \<in> Range M"
    and c1: "cnt = ctrue s1m" and c2: "cnt = ctrue s2m"
    by (auto simp: jaro_flags_def)
  from pm have a: "\<And>i j. (i, j) \<in> M \<Longrightarrow> i < n \<and> jaro_compat s1 s2 d i j"
    and b1: "\<And>i j j'. (i, j) \<in> M \<Longrightarrow> (i, j') \<in> M \<Longrightarrow> j = j'"
    and b2: "\<And>i i' j. (i, j) \<in> M \<Longrightarrow> (i', j) \<in> M \<Longrightarrow> i = i'"
    and dd: "\<And>i j. i < n \<Longrightarrow> jaro_compat s1 s2 d i j \<Longrightarrow> (i, j) \<notin> M
               \<Longrightarrow> (\<exists>j'<j. (i, j') \<in> M) \<or> (\<exists>i'<i. (i', j) \<in> M)"
    unfolding jaro_pm_def by blast+
  have nfree: "n \<notin> Domain M" using a by fastforce
  let ?start = "nat (max 0 (int n - d))"
  let ?end = "nat (min (int n + d + 1) (int (length s2)))"
  let ?P = "\<lambda>j. \<not> (s2m ! j \<or> s1 ! n \<noteq> s2 ! j)"
  show ?thesis
  proof (cases "find ?P [?start..<?end]")
    case None
    then have step: "jaro_match_step s2 d st (n, s1 ! n) = st"
      by (simp add: jaro_match_step_def st Let_def)
    have nomatch: "\<And>j. jaro_compat s1 s2 d n j \<Longrightarrow> s2m ! j"
    proof -
      fix j assume cj: "jaro_compat s1 s2 d n j"
      then have "?start \<le> j \<and> j < ?end \<and> s1 ! n = s2 ! j"
        using jaro_window [OF d n, of j s2] by simp
      with None show "s2m ! j" by (auto simp: find_upt_None)
    qed
    have "jaro_pm s1 s2 d (Suc n) M"
      unfolding jaro_pm_def
    proof (intro conjI allI impI)
      fix i j assume "(i, j) \<in> M"
      then show "i < Suc n" "jaro_compat s1 s2 d i j" using a by fastforce+
    next
      fix i j j' assume "(i, j) \<in> M \<and> (i, j') \<in> M"
      then show "j = j'" using b1 by blast
    next
      fix i i' j assume "(i, j) \<in> M \<and> (i', j) \<in> M"
      then show "i = i'" using b2 by blast
    next
      fix i j assume h: "i < Suc n \<and> jaro_compat s1 s2 d i j \<and> (i, j) \<notin> M"
      show "(\<exists>j'<j. (i, j') \<in> M) \<or> (\<exists>i'<i. (i', j) \<in> M)"
      proof (cases "i = n")
        case True
        with h have cj: "jaro_compat s1 s2 d n j" by simp
        then have "s2m ! j" by (rule nomatch)
        moreover from cj have "j < length s2" by (simp add: jaro_compat_def)
        ultimately have "j \<in> Range M" using f2 by simp
        then obtain i' where "(i', j) \<in> M" by auto
        moreover then have "i' < n" using a by blast
        ultimately show ?thesis using True by blast
      next
        case False
        with h have "i < n" by simp
        with h show ?thesis using dd by blast
      qed
    qed
    with fl step show ?thesis by auto
  next
    case (Some j0)
    then have step: "jaro_match_step s2 d st (n, s1 ! n)
                     = (s1m[n := True], s2m[j0 := True], cnt + 1)"
      by (simp add: jaro_match_step_def st Let_def)
    from find_upt_Some [OF Some]
    have w: "?start \<le> j0" "j0 < ?end" and pj: "\<not> s2m ! j0" "s1 ! n = s2 ! j0"
      and least: "\<And>k. ?start \<le> k \<Longrightarrow> k < j0 \<Longrightarrow> s2m ! k \<or> s1 ! n \<noteq> s2 ! k"
      by auto
    from w pj have cj0: "jaro_compat s1 s2 d n j0"
      using jaro_window [OF d n, of j0 s2] by simp
    then have j0len: "j0 < length s2" by (simp add: jaro_compat_def)
    have j0free: "j0 \<notin> Range M" using pj(1) f2 [OF j0len] by simp
    let ?M = "insert (n, j0) M"
    have "jaro_pm s1 s2 d (Suc n) ?M"
      unfolding jaro_pm_def
    proof (intro conjI allI impI)
      fix i j assume "(i, j) \<in> ?M"
      then show "i < Suc n" "jaro_compat s1 s2 d i j" using a cj0 by fastforce+
    next
      fix i j j' assume "(i, j) \<in> ?M \<and> (i, j') \<in> ?M"
      then show "j = j'" using b1 nfree by blast
    next
      fix i i' j assume "(i, j) \<in> ?M \<and> (i', j) \<in> ?M"
      then show "i = i'" using b2 j0free by blast
    next
      fix i j assume h: "i < Suc n \<and> jaro_compat s1 s2 d i j \<and> (i, j) \<notin> ?M"
      show "(\<exists>j'<j. (i, j') \<in> ?M) \<or> (\<exists>i'<i. (i', j) \<in> ?M)"
      proof (cases "i = n")
        case True
        with h have cj: "jaro_compat s1 s2 d n j" and ne: "j \<noteq> j0" by auto
        show ?thesis
        proof (cases "j0 < j")
          case True
          then show ?thesis using \<open>i = n\<close> by blast
        next
          case False
          with ne have lt: "j < j0" by simp
          from cj have win: "?start \<le> j \<and> j < ?end \<and> s1 ! n = s2 ! j"
            using jaro_window [OF d n, of j s2] by simp
          with least [of j] lt have "s2m ! j" by blast
          moreover from cj have "j < length s2" by (simp add: jaro_compat_def)
          ultimately have "j \<in> Range M" using f2 by simp
          then obtain i' where i': "(i', j) \<in> M" by auto
          then have "i' < n" using a by blast
          with i' show ?thesis using \<open>i = n\<close> by blast
        qed
      next
        case False
        with h have "i < n" "jaro_compat s1 s2 d i j" "(i, j) \<notin> M" by auto
        from dd [OF this] show ?thesis by blast
      qed
    qed
    moreover have "jaro_flags s1 s2 (s1m[n := True], s2m[j0 := True], cnt + 1) ?M"
    proof -
      have "\<not> s1m ! n" using f1 [OF n] nfree by simp
      then have k1: "ctrue (s1m[n := True]) = Suc (ctrue s1m)"
        using n len1 by (simp add: ctrue_update)
      have k2: "ctrue (s2m[j0 := True]) = Suc (ctrue s2m)"
        using pj(1) j0len len2 by (simp add: ctrue_update)
      have g1: "\<forall>i<length s1. (s1m[n := True]) ! i \<longleftrightarrow> i \<in> Domain ?M"
      proof (intro allI impI)
        fix i assume i: "i < length s1"
        have "(s1m[n := True]) ! i = (if i = n then True else s1m ! i)"
          using i len1 by (simp add: nth_list_update)
        then show "(s1m[n := True]) ! i \<longleftrightarrow> i \<in> Domain ?M"
          using f1 [OF i] by auto
      qed
      have g2: "\<forall>j<length s2. (s2m[j0 := True]) ! j \<longleftrightarrow> j \<in> Range ?M"
      proof (intro allI impI)
        fix j assume j: "j < length s2"
        have "(s2m[j0 := True]) ! j = (if j = j0 then True else s2m ! j)"
          using j len2 by (simp add: nth_list_update)
        then show "(s2m[j0 := True]) ! j \<longleftrightarrow> j \<in> Range ?M"
          using f2 [OF j] by auto
      qed
      show ?thesis
        unfolding jaro_flags_def prod.case using len1 len2 g1 g2 k1 k2 c1 c2 by simp
    qed
    ultimately show ?thesis using step by auto
  qed
qed

lemma jaro_loop_inv:
  assumes d: "0 \<le> d"
  shows "n \<le> length s1 \<Longrightarrow>
    \<exists>M. jaro_pm s1 s2 d n M
       \<and> jaro_flags s1 s2
           (foldl (jaro_match_step s2 d)
              (replicate (length s1) False, replicate (length s2) False, 0)
              (enumerate 0 (take n s1))) M"
proof (induction n)
  case 0
  have "jaro_pm s1 s2 d 0 {}" by (simp add: jaro_pm_def)
  moreover have "jaro_flags s1 s2 (replicate (length s1) False, replicate (length s2) False, 0) {}"
    by (simp add: jaro_flags_def ctrue_def)
  ultimately show ?case by auto
next
  case (Suc n)
  then have n: "n < length s1" by simp
  have tk: "take (Suc n) s1 = take n s1 @ [s1 ! n]"
    using n by (simp add: take_Suc_conv_app_nth)
  have en: "enumerate 0 (take (Suc n) s1) = enumerate 0 (take n s1) @ [(n, s1 ! n)]"
    using n by (simp add: tk enumerate_append_eq min_def)
  from Suc.IH n obtain M where M: "jaro_pm s1 s2 d n M"
    "jaro_flags s1 s2 (foldl (jaro_match_step s2 d)
        (replicate (length s1) False, replicate (length s2) False, 0) (enumerate 0 (take n s1))) M"
    by auto
  from jaro_step_inv [OF M n d] show ?case
    by (simp only: en foldl_append foldl.simps)
qed

lemma jaro_compat_sym: "jaro_compat s1 s2 d i j \<longleftrightarrow> jaro_compat s2 s1 d j i"
  by (auto simp: jaro_compat_def)

lemma jaro_pm_converse:
  assumes "jaro_pm s1 s2 d (length s1) M"
  shows "jaro_pm s2 s1 d (length s2) (M\<inverse>)"
proof -
  from assms have a: "\<And>i j. (i, j) \<in> M \<Longrightarrow> jaro_compat s1 s2 d i j"
    and b1: "\<And>i j j'. (i, j) \<in> M \<Longrightarrow> (i, j') \<in> M \<Longrightarrow> j = j'"
    and b2: "\<And>i i' j. (i, j) \<in> M \<Longrightarrow> (i', j) \<in> M \<Longrightarrow> i = i'"
    and dd: "\<And>i j. jaro_compat s1 s2 d i j \<Longrightarrow> (i, j) \<notin> M
               \<Longrightarrow> (\<exists>j'<j. (i, j') \<in> M) \<or> (\<exists>i'<i. (i', j) \<in> M)"
    unfolding jaro_pm_def jaro_compat_def by blast+
  show ?thesis
    unfolding jaro_pm_def
  proof (intro conjI allI impI)
    fix j i assume "(j, i) \<in> M\<inverse>"
    then have "jaro_compat s1 s2 d i j" using a by simp
    then show "j < length s2" "jaro_compat s2 s1 d j i"
      by (simp_all add: jaro_compat_def)
  next
    fix j i i' assume "(j, i) \<in> M\<inverse> \<and> (j, i') \<in> M\<inverse>"
    then show "i = i'" using b2 by auto
  next
    fix j j' i assume "(j, i) \<in> M\<inverse> \<and> (j', i) \<in> M\<inverse>"
    then show "j = j'" using b1 by auto
  next
    fix j i assume "j < length s2 \<and> jaro_compat s2 s1 d j i \<and> (j, i) \<notin> M\<inverse>"
    then have "jaro_compat s1 s2 d i j" "(i, j) \<notin> M"
      using jaro_compat_sym [of s1 s2 d i j] by auto
    from dd [OF this] show "(\<exists>i'<i. (j, i') \<in> M\<inverse>) \<or> (\<exists>j'<j. (j', i) \<in> M\<inverse>)"
      by auto
  qed
qed

lemma jaro_pm_sub:
  assumes M: "jaro_pm s1 s2 d n M" and M': "jaro_pm s1 s2 d n M'"
    and ih: "\<And>i' j'. i' + j' < i + j \<Longrightarrow> (i', j') \<in> M' \<Longrightarrow> (i', j') \<in> M"
    and ij: "(i, j) \<in> M"
  shows "(i, j) \<in> M'"
proof (rule ccontr)
  assume notin: "(i, j) \<notin> M'"
  from M ij have "i < n" "jaro_compat s1 s2 d i j" unfolding jaro_pm_def by blast+
  with M' notin have "(\<exists>j'<j. (i, j') \<in> M') \<or> (\<exists>i'<i. (i', j) \<in> M')"
    unfolding jaro_pm_def by blast
  then show False
  proof
    assume "\<exists>j'<j. (i, j') \<in> M'"
    then obtain j' where j': "j' < j" "(i, j') \<in> M'" by blast
    then have "(i, j') \<in> M" using ih [of i j'] by simp
    with ij M have "j = j'" unfolding jaro_pm_def by blast
    with j' show False by simp
  next
    assume "\<exists>i'<i. (i', j) \<in> M'"
    then obtain i' where i': "i' < i" "(i', j) \<in> M'" by blast
    then have "(i', j) \<in> M" using ih [of i' j] by simp
    with ij M have "i = i'" unfolding jaro_pm_def by blast
    with i' show False by simp
  qed
qed

lemma jaro_pm_unique_aux:
  assumes M: "jaro_pm s1 s2 d n M" and M': "jaro_pm s1 s2 d n M'"
  shows "i + j = k \<Longrightarrow> ((i, j) \<in> M \<longleftrightarrow> (i, j) \<in> M')"
proof (induction k arbitrary: i j rule: less_induct)
  case (less k)
  have ih: "\<And>i' j'. i' + j' < i + j \<Longrightarrow> ((i', j') \<in> M \<longleftrightarrow> (i', j') \<in> M')"
    using less by blast
  show ?case
  proof
    assume "(i, j) \<in> M"
    then show "(i, j) \<in> M'" using jaro_pm_sub [OF M M', of i j] ih by blast
  next
    assume "(i, j) \<in> M'"
    then show "(i, j) \<in> M" using jaro_pm_sub [OF M' M, of i j] ih by blast
  qed
qed

lemma jaro_pm_unique:
  assumes "jaro_pm s1 s2 d n M" and "jaro_pm s1 s2 d n M'"
  shows "M = M'"
  using jaro_pm_unique_aux [OF assms] by auto

lemma sel_Cons [simp]: "sel (c # cs) (b # bs) = (if b then c # sel cs bs else sel cs bs)"
  by (simp add: sel_def)

lemma sel_Nil [simp]: "sel [] m = []" "sel s [] = []"
  by (simp_all add: sel_def)

lemma ctrue_Cons [simp]: "ctrue (b # bs) = (if b then Suc (ctrue bs) else ctrue bs)"
  by (simp add: ctrue_def)

lemma ctrue_Nil [simp]: "ctrue [] = 0"
  by (simp add: ctrue_def)


lemma mism_Cons [simp]: "mism (x # xs) (y # ys) = (if x \<noteq> y then Suc (mism xs ys) else mism xs ys)"
  by (simp add: mism_def)

lemma mism_Nil [simp]: "mism [] ys = 0" "mism xs [] = 0"
  by (simp_all add: mism_def)

lemma mism_sym: "mism xs ys = mism ys xs"
proof (induction xs arbitrary: ys)
  case Nil
  then show ?case by simp
next
  case (Cons x xs)
  then show ?case by (cases ys) auto
qed


declare jaro_skip.simps [simp del]

lemma jaro_skip_sel:
  "length s = length m \<Longrightarrow> 0 < ctrue (drop k m) \<Longrightarrow>
    \<exists>k'. jaro_skip m k = Some k' \<and> k' < length m
        \<and> sel (drop k s) (drop k m) = s ! k' # sel (drop (Suc k') s) (drop (Suc k') m)
        \<and> ctrue (drop k m) = Suc (ctrue (drop (Suc k') m))"
proof (induction m k rule: jaro_skip.induct)
  case (1 m k)
  note len = "1.prems"(1)
  show ?case
  proof (cases "k \<ge> length m")
    case True
    with "1.prems" show ?thesis by simp
  next
    case False
    then have k: "k < length m" by simp
    have dm: "drop k m = m ! k # drop (Suc k) m"
      using k by (simp add: Cons_nth_drop_Suc)
    have ds: "drop k s = s ! k # drop (Suc k) s"
      using k len by (simp add: Cons_nth_drop_Suc)
    show ?thesis
    proof (cases "m ! k")
      case True
      then have "jaro_skip m k = Some k"
        using k by (subst jaro_skip.simps) simp
      then show ?thesis using True k by (simp add: dm ds)
    next
      case mk: False
      then have eq: "jaro_skip m k = jaro_skip m (k + 1)"
        using k by (subst jaro_skip.simps) simp
      have "0 < ctrue (drop (k + 1) m)" using "1.prems" mk by (simp add: dm)
      from "1.IH" [OF False mk len this] show ?thesis
        using mk k by (simp add: eq dm ds)
    qed
  qed
qed

lemma jaro_transp_loop_sel:
  assumes len: "length s2 = length s2m"
  shows "i + length cs \<le> length s1m \<Longrightarrow>
     ctrue (take (length cs) (drop i s1m)) \<le> ctrue (drop k s2m) \<Longrightarrow>
     jaro_transp_loop s2 s1m s2m (enumerate i cs) k t
     = Some (t + mism (sel cs (take (length cs) (drop i s1m))) (sel (drop k s2) (drop k s2m)))"
proof (induction cs arbitrary: i k t)
  case Nil
  then show ?case by simp
next
  case (Cons c cs)
  then have i: "i < length s1m" by simp
  have tk: "take (Suc (length cs)) (drop i s1m) = s1m ! i # take (length cs) (drop (Suc i) s1m)"
    using i by (simp add: Cons_nth_drop_Suc [symmetric])
  show ?case
  proof (cases "s1m ! i")
    case False
    have "jaro_transp_loop s2 s1m s2m (enumerate i (c # cs)) k t
          = jaro_transp_loop s2 s1m s2m (enumerate (Suc i) cs) k t"
      using False by simp
    also have "\<dots> = Some (t + mism (sel cs (take (length cs) (drop (Suc i) s1m)))
                                 (sel (drop k s2) (drop k s2m)))"
      using Cons.prems False by (intro Cons.IH) (simp_all add: tk)
    finally show ?thesis using False by (simp add: tk)
  next
    case True
    with Cons.prems have le: "Suc (ctrue (take (length cs) (drop (Suc i) s1m))) \<le> ctrue (drop k s2m)"
      by (simp add: tk)
    then have "0 < ctrue (drop k s2m)" by simp
    from jaro_skip_sel [OF len this] obtain k' where k':
      "jaro_skip s2m k = Some k'" "k' < length s2m"
      "sel (drop k s2) (drop k s2m) = s2 ! k' # sel (drop (Suc k') s2) (drop (Suc k') s2m)"
      "ctrue (drop k s2m) = Suc (ctrue (drop (Suc k') s2m))"
      by blast
    let ?t = "if c \<noteq> s2 ! k' then t + 1 else t"
    have "jaro_transp_loop s2 s1m s2m (enumerate i (c # cs)) k t
          = jaro_transp_loop s2 s1m s2m (enumerate (Suc i) cs) (k' + 1) ?t"
      using True k'(1) by simp
    also have "\<dots> = Some (?t + mism (sel cs (take (length cs) (drop (Suc i) s1m)))
                                 (sel (drop (k' + 1) s2) (drop (k' + 1) s2m)))"
      using Cons.prems le k'(4) by (intro Cons.IH) simp_all
    finally show ?thesis using True by (simp add: tk k'(3))
  qed
qed

lemma jaro_md_nonneg: "0 \<le> jaro_md a b"
  by (simp add: jaro_md_def Let_def)

lemma jaro_md_sym: "jaro_md a b = jaro_md b a"
  by (simp add: jaro_md_def max.commute)

lemma jaro_loop_ex:
  "\<exists>M. jaro_pm a b (jaro_md a b) (length a) M \<and> jaro_flags a b (jaro_loop a b) M"
  using jaro_loop_inv [OF jaro_md_nonneg, of "length a" a b a] by (simp add: jaro_loop_def)

lemma jaro_loop_sym:
  assumes "jaro_loop a b = (m1, m2, c)"
  shows "jaro_loop b a = (m2, m1, c)"
proof -
  obtain M where M: "jaro_pm a b (jaro_md a b) (length a) M" "jaro_flags a b (m1, m2, c) M"
    using jaro_loop_ex [of a b] assms by auto
  obtain n1 n2 c' where l': "jaro_loop b a = (n1, n2, c')" by (cases "jaro_loop b a") auto
  obtain M' where M': "jaro_pm b a (jaro_md a b) (length b) M'" "jaro_flags b a (n1, n2, c') M'"
    using jaro_loop_ex [of b a] l' jaro_md_sym [of a b] by auto
  have "jaro_pm a b (jaro_md a b) (length a) (M'\<inverse>)"
    using jaro_pm_converse [OF M'(1)] .
  with M(1) have MM: "M = M'\<inverse>" by (rule jaro_pm_unique)
  from M(2) have f: "length m1 = length a" "length m2 = length b"
    "\<And>i. i < length a \<Longrightarrow> m1 ! i \<longleftrightarrow> i \<in> Domain M"
    "\<And>j. j < length b \<Longrightarrow> m2 ! j \<longleftrightarrow> j \<in> Range M"
    "c = ctrue m1" "c = ctrue m2"
    by (auto simp: jaro_flags_def)
  from M'(2) have g: "length n1 = length b" "length n2 = length a"
    "\<And>i. i < length b \<Longrightarrow> n1 ! i \<longleftrightarrow> i \<in> Domain M'"
    "\<And>j. j < length a \<Longrightarrow> n2 ! j \<longleftrightarrow> j \<in> Range M'"
    "c' = ctrue n1" "c' = ctrue n2"
    by (auto simp: jaro_flags_def)
  have "n1 = m2"
  proof (rule nth_equalityI)
    show "length n1 = length m2" using f g by simp
  next
    fix i assume "i < length n1"
    then have "i < length b" using g by simp
    then show "n1 ! i = m2 ! i" using f(4) g(3) MM by auto
  qed
  moreover have "n2 = m1"
  proof (rule nth_equalityI)
    show "length n2 = length m1" using f g by simp
  next
    fix i assume "i < length n2"
    then have "i < length a" using g by simp
    then show "n2 ! i = m1 ! i" using f(3) g(4) MM by auto
  qed
  ultimately show ?thesis using l' f(5) g(6) by simp
qed

lemma length_lower [simp]: "length (lower s) = length s"
  by (simp add: lower_def)

lemma lower_Nil_iff [simp]: "lower s = [] \<longleftrightarrow> s = []"
  by (simp add: lower_def)

lemma jaro_similarity_alt:
  "jaro_similarity s1 s2 =
     (if s1 = [] \<and> s2 = [] then Some 1
      else if s1 = [] \<or> s2 = [] then Some 0
      else (case jaro_loop (lower s1) (lower s2) of
              (s1_matches, s2_matches, matches) \<Rightarrow>
                if matches = 0 then Some 0
                else case jaro_transp_loop (lower s2) s1_matches s2_matches
                            (enumerate 0 (lower s1)) 0 0 of
                       None \<Rightarrow> None
                     | Some transpositions \<Rightarrow>
                         Some ((real matches / real (length (lower s1))
                                + real matches / real (length (lower s2))
                                + (real matches - real transpositions / 2) / real matches) / 3)))"
  unfolding jaro_similarity_def jaro_loop_def jaro_md_def Let_def by (rule refl)

lemma jaro_similarity_eq:
  assumes ne: "s1 \<noteq> []" "s2 \<noteq> []"
    and loop: "jaro_loop (lower s1) (lower s2) = (m1, m2, c)"
  shows "jaro_similarity s1 s2 = Some (jaro_value (lower s1) (lower s2) m1 m2 c)"
proof -
  obtain M where "jaro_flags (lower s1) (lower s2) (m1, m2, c) M"
    using jaro_loop_ex [of "lower s1" "lower s2"] loop by auto
  then have f: "length m1 = length s1" "length m2 = length s2" "c = ctrue m1" "c = ctrue m2"
    by (auto simp: jaro_flags_def)
  have tl: "jaro_transp_loop (lower s2) m1 m2 (enumerate 0 (lower s1)) 0 0
            = Some (0 + mism (sel (lower s1) (take (length (lower s1)) (drop 0 m1)))
                             (sel (drop 0 (lower s2)) (drop 0 m2)))"
    using f by (intro jaro_transp_loop_sel) simp_all
  then have tl': "jaro_transp_loop (lower s2) m1 m2 (enumerate 0 (lower s1)) 0 0
            = Some (mism (sel (lower s1) m1) (sel (lower s2) m2))"
    using f by simp
  show ?thesis
    using ne by (simp add: jaro_similarity_alt loop tl' jaro_value_def)
qed


lemma jaro_value_sym:
  assumes "length m1 = length a" "length m2 = length b"
  shows "jaro_value a b m1 m2 c = jaro_value b a m2 m1 c"
  by (simp add: jaro_value_def mism_sym [of "sel a m1"])

lemma jaro_similarity_sym: "jaro_similarity s1 s2 = jaro_similarity s2 s1"
proof (cases "s1 = [] \<or> s2 = []")
  case True
  then show ?thesis by (auto simp: jaro_similarity_def)
next
  case False
  obtain m1 m2 c where l: "jaro_loop (lower s1) (lower s2) = (m1, m2, c)"
    by (cases "jaro_loop (lower s1) (lower s2)") auto
  obtain M where "jaro_flags (lower s1) (lower s2) (m1, m2, c) M"
    using jaro_loop_ex [of "lower s1" "lower s2"] l by auto
  then have f: "length m1 = length (lower s1)" "length m2 = length (lower s2)"
    by (auto simp: jaro_flags_def)
  from False l jaro_loop_sym [OF l] show ?thesis
    by (simp add: jaro_similarity_eq jaro_value_sym [OF f])
qed


lemma common_prefix_len_sym: "common_prefix_len s1 s2 = common_prefix_len s2 s1"
proof -
  have "(\<lambda>i. lower s1 ! i = lower s2 ! i) = (\<lambda>i. lower s2 ! i = lower s1 ! i)"
    by (auto simp: fun_eq_iff)
  then show ?thesis
    by (simp add: common_prefix_len_def Let_def min.commute min.left_commute)
qed


lemma jaro_winkler_similarity_sym: "jaro_winkler_similarity s1 s2 = jaro_winkler_similarity s2 s1"
  unfolding jaro_winkler_similarity_def jaro_winkler_similarity_p_def
    jaro_similarity_sym [of s1 s2] common_prefix_len_sym [of s1 s2] by (rule refl)


section \<open>Range and symmetry of the similarity functions\<close>

lemma levenshtein_similarity_sym: "levenshtein_similarity s1 s2 = levenshtein_similarity s2 s1"
  by (auto simp: levenshtein_similarity_def Let_def max.commute
      levenshtein_distance_sym [of "lower s1" "lower s2"])




lemma jaccard_similarity_n_sym: "jaccard_similarity_n s1 s2 n = jaccard_similarity_n s2 s1 n"
  by (auto simp: jaccard_similarity_n_def Let_def Int_commute Un_commute)


lemma token_based_similarity_sym: "token_based_similarity s1 s2 = token_based_similarity s2 s1"
  by (auto simp: token_based_similarity_def Let_def Int_commute Un_commute)


lemma zip_eq_count_sym:
  "length (filter (\<lambda>(c1, c2). c1 = c2) (zip xs ys)) = length (filter (\<lambda>(c1, c2). c1 = c2) (zip ys xs))"
proof (induction xs arbitrary: ys)
  case Nil
  then show ?case by simp
next
  case (Cons x xs)
  then show ?case by (cases ys) auto
qed


lemma phonetic_similarity_sym: "phonetic_similarity s1 s2 = phonetic_similarity s2 s1"
  by (auto simp: phonetic_similarity_def Let_def zip_eq_count_sym [of "soundex s1"])


lemma composite_name_score_sym: "composite_name_score n1 n2 = composite_name_score n2 n1"
  unfolding composite_name_score_def jaccard_similarity_def
    jaro_winkler_similarity_sym [of n1 n2] levenshtein_similarity_sym [of n1 n2]
    jaccard_similarity_n_sym [of n1 n2] token_based_similarity_sym [of n1 n2]
    phonetic_similarity_sym [of n1 n2]
  by (rule refl)


section \<open>Range and symmetry of the pair score\<close>


lemma scores_ok_append [simp]: "scores_ok (xs @ ys) \<longleftrightarrow> scores_ok xs \<and> scores_ok ys"
  by (simp add: scores_ok_def)








lemma name_scores_sym: "name_scores a b = name_scores b a"
  by (simp add: name_scores_def Let_def conj_commute
      composite_name_score_sym [of "get_or a ''name_standardized'' ''name'' []"])

lemma address_scores_sym: "address_scores a b = address_scores b a"
  by (simp add: address_scores_def Let_def conj_commute
      jaro_winkler_similarity_sym [of "get_or a ''address_standardized'' ''address'' []"])

lemma dob_scores_sym: "dob_scores a b = dob_scores b a"
  by (auto simp: dob_scores_def)

lemma id_scores_sym: "id_scores a b = id_scores b a"
  by (auto simp: id_scores_def)

lemma score_candidate_pair_sym:
  "map_option overall_score (score_candidate_pair ra rb)
   = map_option overall_score (score_candidate_pair rb ra)"
  by (simp add: score_candidate_pair_def Let_def name_scores_sym [of "attributes ra"]
      address_scores_sym [of "attributes ra"] dob_scores_sym [of "attributes ra"]
      id_scores_sym [of "attributes ra"] split: option.splits)

section \<open>Properties of the similarity scorer\<close>

text \<open>
  C6. The convention "1.0 for two empty strings, 0.0 when exactly one is empty" is what
  \<open>levenshtein_similarity\<close>, \<open>jaro_similarity\<close>, \<open>jaccard_similarity\<close> and
  \<open>token_based_similarity\<close> implement with their two guards. \<open>phonetic_similarity\<close>
  has no such guard: the Soundex code of the empty string is 0000 and that of "A" is
  A000, which agree in three of four positions, so the empty string and "A" score 0.75,
  and the composite name score of the two is 0.075 instead of 0.
\<close>

theorem phonetic_similarity_one_empty:
  "phonetic_similarity [] ''A'' = 3 / 4 \<and> composite_name_score [] ''A'' = Some (3 / 40)"
  by code_simp

section \<open>Properties of the canonical record\<close>

text \<open>
  C7 (as stated). A singleton cluster from one source system does not get a confidence
  near 0.55: for the record "Jane Mary Doe" of the demonstration batch the formula
  gives 0.5 + 0.1 + 0.05 = 0.65.
\<close>

theorem singleton_confidence_not_055:
  "map_sum id confidence_score (create_canonical_record id [jane_doe]) = Inr (65 / 100)
   \<and> \<not> (\<bar>(65 / 100 :: real) - 55 / 100\<bar> < 5 / 100)"
  by (simp add: create_canonical_record_def jane_doe_def Let_def)

text \<open>
  C7 (amended). Every singleton cluster is canonicalised without error and gets the
  confidence min(1.0, 0.5 + 0.1 * 1 + 0.05 * 1) = 0.65, whatever the record and the digest.
\<close>

theorem singleton_confidence:
  "\<exists>e. create_canonical_record md5_hex [r] = Inr e \<and> confidence_score e = 65 / 100
       \<and> confidence_score e
           = min 1 (5 / 10 + real (card (set (map source_system [r]))) * (1 / 10)
                    + real (length [r]) * (5 / 100))"
  by (simp add: create_canonical_record_def Let_def)

section \<open>Range of the scores\<close>



section \<open>Symmetry of the similarity functions\<close>

text \<open>
  C5. Every similarity function is symmetric in its two string arguments: Levenshtein
  similarity, Jaro, Jaro-Winkler, Jaccard over character n-grams, token-set similarity,
  phonetic similarity and the composite name score. For Jaro this rests on the greedy
  matching being the same set of index pairs from either side.
\<close>

theorem similarity_symmetric:
  "levenshtein_similarity a b = levenshtein_similarity b a
   \<and> jaro_similarity a b = jaro_similarity b a
   \<and> jaro_winkler_similarity a b = jaro_winkler_similarity b a
   \<and> jaccard_similarity_n a b n = jaccard_similarity_n b a n
   \<and> token_based_similarity a b = token_based_similarity b a
   \<and> phonetic_similarity a b = phonetic_similarity b a
   \<and> composite_name_score a b = composite_name_score b a"
  using levenshtein_similarity_sym [of a b] jaro_similarity_sym [of a b]
    jaro_winkler_similarity_sym [of a b] jaccard_similarity_n_sym [of a b n]
    token_based_similarity_sym [of a b] phonetic_similarity_sym [of a b]
    composite_name_score_sym [of a b]
  by blast

theorem similarity_symmetric_witness:
  "levenshtein_similarity ''kitten'' ''Sitting'' = levenshtein_similarity ''Sitting'' ''kitten''
   \<and> jaro_similarity ''kitten'' ''Sitting'' = jaro_similarity ''Sitting'' ''kitten''
   \<and> jaro_winkler_similarity ''kitten'' ''Sitting'' = jaro_winkler_similarity ''Sitting'' ''kitten''
   \<and> jaccard_similarity_n ''kitten'' ''Sitting'' 2 = jaccard_similarity_n ''Sitting'' ''kitten'' 2
   \<and> token_based_similarity ''kitten'' ''Sitting'' = token_based_similarity ''Sitting'' ''kitten''
   \<and> phonetic_similarity ''kitten'' ''Sitting'' = phonetic_similarity ''Sitting'' ''kitten''
   \<and> composite_name_score ''kitten'' ''Sitting'' = composite_name_score ''Sitting'' ''kitten''"
  by (rule similarity_symmetric)

end
